theory Spec2Isabelle
  imports Main "HOL-Library.Word" "HOL-Library.Multiset"
begin

unbundle bit_operations_syntax

section \<open>Go strings, slices and panics\<close>

text \<open>
  A Go \<^verbatim>\<open>string\<close> is a sequence of bytes; it is modelled by \<^typ>\<open>string\<close>, a list of
  8-bit characters. Run-time panics of the source (a slice expression or an index out of
  range) are values of the type \<open>panic\<close>; a function that can panic returns
  \<open>panic + 'a\<close>, with \<open>Inl\<close> for the panic.
\<close>

datatype panic = SliceBounds | IndexRange

text \<open>The slice expression \<^verbatim>\<open>s[lo:hi]\<close>: it panics unless \<open>0 \<le> lo \<le> hi \<le> len(s)\<close>.\<close>

definition slice :: "string \<Rightarrow> int \<Rightarrow> int \<Rightarrow> panic + string" where
  "slice s lo hi =
     (if 0 \<le> lo \<and> lo \<le> hi \<and> hi \<le> int (length s)
      then Inr (take (nat (hi - lo)) (drop (nat lo) s))
      else Inl SliceBounds)"

text \<open>\<^verbatim>\<open>s[lo:]\<close> is \<^verbatim>\<open>s[lo:len(s)]\<close> and \<^verbatim>\<open>s[:hi]\<close> is \<^verbatim>\<open>s[0:hi]\<close>.\<close>

definition slice_from :: "string \<Rightarrow> int \<Rightarrow> panic + string" where
  "slice_from s lo = slice s lo (int (length s))"

definition slice_to :: "string \<Rightarrow> int \<Rightarrow> panic + string" where
  "slice_to s hi = slice s 0 hi"

text \<open>
  \<^verbatim>\<open>strings.Index(s, sep)\<close> and \<^verbatim>\<open>strings.LastIndex(s, sep)\<close> for a separator of one
  byte, the only use the source makes of them: the position of the first (last)
  occurrence, or \<open>-1\<close>.
\<close>

fun Index :: "string \<Rightarrow> char \<Rightarrow> int" where
  "Index [] c = - 1"
| "Index (x # xs) c =
     (if x = c then 0 else (let i = Index xs c in if i = - 1 then - 1 else i + 1))"


text \<open>
  \<^verbatim>\<open>strings.ToLower\<close> on ASCII text: the bytes \<open>A\<close> to \<open>Z\<close> are mapped to \<open>a\<close> to
  \<open>z\<close>, every other byte is kept. (On text that is not ASCII the Go function maps
  Unicode code points; host names and header names are ASCII.)
\<close>

definition lowerByte :: "char \<Rightarrow> char" where
  "lowerByte c =
     (case map_of (zip ''ABCDEFGHIJKLMNOPQRSTUVWXYZ'' ''abcdefghijklmnopqrstuvwxyz'') c of
        None \<Rightarrow> c | Some d \<Rightarrow> d)"

definition ToLower :: "string \<Rightarrow> string" where
  "ToLower s = map lowerByte s"

section \<open>The flag register (\<^verbatim>\<open>Options\<close>)\<close>

text \<open>
  \<^verbatim>\<open>type Options uint32\<close>. The methods mutate the receiver; the model returns the new
  register. The variadic argument is a list, the \<^verbatim>\<open>range\<close> loop a left fold.
\<close>

type_synonym Options = "32 word"

definition IsSet :: "Options \<Rightarrow> 32 word \<Rightarrow> bool" where
  "IsSet o1 option \<longleftrightarrow> (o1 AND option) \<noteq> 0"

definition Set :: "Options \<Rightarrow> 32 word list \<Rightarrow> Options" where
  "Set o1 options = foldl (\<lambda>acc option. acc OR option) o1 options"

definition SetBool :: "Options \<Rightarrow> bool \<Rightarrow> 32 word \<Rightarrow> Options" where
  "SetBool o1 b option = (if b then Set o1 [option] else o1)"

definition UnSet :: "Options \<Rightarrow> 32 word list \<Rightarrow> Options" where
  "UnSet o1 options = foldl (\<lambda>acc option. (acc OR option) - option) o1 options"

section \<open>\<^verbatim>\<open>stripURI\<close>\<close>

text \<open>
  \<^verbatim>\<open>func (proxy *ProxyServer) stripURI(uri string) string\<close>. The call of the logger in
  the branch where no further \<open>/\<close> is found writes a warning and leaves \<open>uri\<close> as it is.
\<close>

definition stripURI :: "string \<Rightarrow> panic + string" where
  "stripURI uri =
     (if length uri < 1 then Inr uri
      else if uri ! 0 \<noteq> CHR ''/'' then
        (case slice_from uri 8 of
           Inl p \<Rightarrow> Inl p
         | Inr rest \<Rightarrow>
             (let idx = Index rest CHR ''/'' in
              if idx > - 1 then slice_from uri (idx + 1 + 8) else Inr uri))
      else slice_from uri 1)"

section \<open>\<^verbatim>\<open>splitHostPort\<close>\<close>


section \<open>More string functions of the Go library\<close>

text \<open>
  \<^verbatim>\<open>strings.Split(s, sep)\<close> for a separator of one byte: the parts between the
  occurrences of the separator, so one part more than there are separators. The
  last case of the inner \<^theory_text>\<open>case\<close> is never reached (the result is never empty).
\<close>

fun Split :: "string \<Rightarrow> char \<Rightarrow> string list" where
  "Split [] c = [[]]"
| "Split (x # xs) c =
     (if x = c then [] # Split xs c
      else (case Split xs c of [] \<Rightarrow> [[x]] | p # ps \<Rightarrow> (x # p) # ps))"



definition HasSuffix :: "string \<Rightarrow> string \<Rightarrow> bool" where
  "HasSuffix s suffix \<longleftrightarrow>
     length suffix \<le> length s \<and> drop (length s - length suffix) s = suffix"

text \<open>
  A Go function that returns \<^verbatim>\<open>(value, error)\<close> returns a pair here; the second
  component is \<open>None\<close> for \<^verbatim>\<open>nil\<close> and \<open>Some\<close> of the error text otherwise.
\<close>

type_synonym goerror = string

section \<open>\<^verbatim>\<open>basicAuth\<close>\<close>


section \<open>\<^verbatim>\<open>readUntil\<close>\<close>

text \<open>
  An \<^verbatim>\<open>io.Reader\<close> read through a buffer of one byte. One call of \<^verbatim>\<open>r.Read(buf)\<close>
  returns \<^verbatim>\<open>(n, err)\<close> with \<open>n\<close> 0 or 1: the event \<open>(Some b, err)\<close> stands for \<open>n = 1\<close>
  with \<open>b\<close> stored in \<^verbatim>\<open>buf[0]\<close>, the event \<open>(None, err)\<close> for \<open>n = 0\<close> with the buffer
  left as it was. A reader is the list of the events of its coming calls; when the list
  is used up, every further call returns \<^verbatim>\<open>(0, io.EOF)\<close>. \<open>stream s\<close> is the reader
  over the bytes \<open>s\<close> (a \<^verbatim>\<open>strings.Reader\<close>, or a connection that delivers \<open>s\<close> and is
  closed).
\<close>

datatype ioerr = EOF | OtherErr string

type_synonym read_event = "char option \<times> ioerr option"

type_synonym reader = "read_event list"

definition Read :: "reader \<Rightarrow> read_event \<times> reader" where
  "Read r = (case r of [] \<Rightarrow> ((None, Some EOF), []) | ev # r' \<Rightarrow> (ev, r'))"

definition stream :: "string \<Rightarrow> reader" where
  "stream s = map (\<lambda>b. (Some b, None)) s"

text \<open>
  The result of \<^verbatim>\<open>readUntil\<close>: the bytes read, or the error it returns
  (\<open>NotFound\<close> for \<^verbatim>\<open>fmt.Errorf("readUntil cannot find the pattern: ...")\<close>,
  \<open>ReadError\<close> for the error of the reader passed on), or the panic of \<^verbatim>\<open>eoh[eidx]\<close>
  on an empty marker.
\<close>

datatype rerror = NotFound | ReadError ioerr | Panic panic

text \<open>The variables of the loop: \<^verbatim>\<open>buf[0]\<close>, \<^verbatim>\<open>respbuf\<close> and \<^verbatim>\<open>eidx\<close>.\<close>

type_synonym scan = "char \<times> string \<times> nat"

text \<open>
  One iteration of the \<^verbatim>\<open>for\<close> loop, after \<^verbatim>\<open>r.Read(buf)\<close> has returned the event
  \<open>ev\<close>: \<open>Inr\<close> is the state for the next iteration, \<open>Inl\<close> the result of the function
  when the iteration leaves the loop (by \<^verbatim>\<open>break\<close> with or without \<^verbatim>\<open>found\<close>, by
  \<^verbatim>\<open>return nil, err\<close>, or by a panic). The comparison \<^verbatim>\<open>buf[0] == eoh[eidx]\<close> is made
  whatever \<open>n\<close> is, as in the source.
\<close>

definition loopBody :: "string \<Rightarrow> read_event \<Rightarrow> scan \<Rightarrow> (rerror + string) + scan" where
  "loopBody eoh ev st =
     (case (ev, st) of ((n, err), (buf0, respbuf, eidx)) \<Rightarrow>
        (let buf0' = (case n of Some b \<Rightarrow> b | None \<Rightarrow> buf0);
             respbuf' = (case n of Some b \<Rightarrow> respbuf @ [b] | None \<Rightarrow> respbuf)
         in if length eoh \<le> eidx then Inl (Inl (Panic IndexRange))
            else if buf0' = eoh ! eidx \<and> eidx + 1 = length eoh then Inl (Inr respbuf')
            else (let eidx' = (if buf0' = eoh ! eidx then eidx + 1 else 0)
                  in case err of
                       Some e \<Rightarrow> if e \<noteq> EOF then Inl (Inl (ReadError e)) else Inl (Inl NotFound)
                     | None \<Rightarrow> Inr (buf0', respbuf', eidx'))))"

text \<open>
  The loop. On a reader that is used up the call of \<open>Read\<close> returns \<^verbatim>\<open>(0, io.EOF)\<close>, and
  the iteration always leaves the loop (the second case is never reached); so the
  recursion is on the list of events.
\<close>

fun readLoop :: "string \<Rightarrow> reader \<Rightarrow> scan \<Rightarrow> (rerror + string) \<times> reader" where
  "readLoop eoh [] st =
     (case loopBody eoh (fst (Read [])) st of
        Inl res \<Rightarrow> (res, snd (Read []))
      | Inr st' \<Rightarrow> (Inl NotFound, snd (Read [])))"
| "readLoop eoh (ev # r) st =
     (case loopBody eoh ev st of
        Inl res \<Rightarrow> (res, r)
      | Inr st' \<Rightarrow> readLoop eoh r st')"

text \<open>
  \<^verbatim>\<open>func readUntil(r io.Reader, eoh string) ([]byte, error)\<close>; the model also returns
  what is left of the reader. \<^verbatim>\<open>buf\<close> starts as one zero byte.
\<close>

definition readUntil :: "reader \<Rightarrow> string \<Rightarrow> (rerror + string) \<times> reader" where
  "readUntil r eoh = readLoop eoh r (CHR 0x00, [], 0)"

definition CRLF :: string where
  "CRLF = [CHR 0x0D, CHR 0x0A]"

section \<open>Header maps\<close>

text \<open>
  \<^verbatim>\<open>textproto.CanonicalMIMEHeaderKey\<close> of the Go library, which \<^verbatim>\<open>http.Header\<close> applies
  to the key in \<^verbatim>\<open>Add\<close> and \<^verbatim>\<open>Del\<close>: a key with a byte that is not allowed in a header
  name is returned as it is; otherwise the first letter and every letter after a \<open>-\<close>
  is made upper case and every other letter lower case.
\<close>

definition upperByte :: "char \<Rightarrow> char" where
  "upperByte c =
     (case map_of (zip ''abcdefghijklmnopqrstuvwxyz'' ''ABCDEFGHIJKLMNOPQRSTUVWXYZ'') c of
        None \<Rightarrow> c | Some d \<Rightarrow> d)"

definition validHeaderFieldByte :: "char \<Rightarrow> bool" where
  "validHeaderFieldByte c \<longleftrightarrow>
     c \<in> set (''0123456789'' @ ''abcdefghijklmnopqrstuvwxyz'' @ ''ABCDEFGHIJKLMNOPQRSTUVWXYZ''
              @ ''!#$%&*+-.^_|~'' @ [CHR 0x27, CHR 0x60])"

fun canonCase :: "bool \<Rightarrow> string \<Rightarrow> string" where
  "canonCase upper [] = []"
| "canonCase upper (c # cs) =
     (let c' = (if upper then upperByte c else lowerByte c)
      in c' # canonCase (c' = CHR ''-'') cs)"

definition CanonicalMIMEHeaderKey :: "string \<Rightarrow> string" where
  "CanonicalMIMEHeaderKey s = (if list_all validHeaderFieldByte s then canonCase True s else s)"

text \<open>
  \<^verbatim>\<open>type Header map[string][]string\<close>. The map is a list of entries with distinct
  keys; the order of the list is the order in which a \<^verbatim>\<open>range\<close> loop visits the map
  (Go leaves that order open, so a statement about a loop is made for every order).
  \<open>Values h k\<close> is \<^verbatim>\<open>h[k]\<close>, empty for a missing key.
\<close>

type_synonym Header = "(string \<times> string list) list"

definition Del :: "Header \<Rightarrow> string \<Rightarrow> Header" where
  "Del h key = filter (\<lambda>(k, vs). k \<noteq> CanonicalMIMEHeaderKey key) h"

definition Add :: "Header \<Rightarrow> string \<Rightarrow> string \<Rightarrow> Header" where
  "Add h key v =
     (let k = CanonicalMIMEHeaderKey key in
      if k \<in> set (map fst h)
      then map (\<lambda>(k', vs). if k' = k then (k', vs @ [v]) else (k', vs)) h
      else h @ [(k, [v])])"


section \<open>The header-stripping pass of \<^verbatim>\<open>decryptRequest\<close>\<close>

text \<open>
  The loop \<^verbatim>\<open>for k := range req.Header { ... req.Header.Del(k) ... }\<close> at the end of
  \<^verbatim>\<open>decryptRequest\<close>. \<open>stripLoop ks h\<close> visits the keys \<open>ks\<close> with the map in state \<open>h\<close>;
  a key that an earlier iteration has removed is not visited. \<^verbatim>\<open>k[:3]\<close> is evaluated
  first and panics on a key shorter than 3 bytes; \<^verbatim>\<open>k[:12]\<close> is evaluated only when
  \<^verbatim>\<open>len(k) > 12\<close>.
\<close>

fun stripLoop :: "string list \<Rightarrow> Header \<Rightarrow> panic + Header" where
  "stripLoop [] h = Inr h"
| "stripLoop (k # ks) h =
     (if k \<notin> set (map fst h) then stripLoop ks h
      else (case slice_to k 3 of
              Inl p \<Rightarrow> Inl p
            | Inr k3 \<Rightarrow>
                if k3 = ''Cf-''
                   \<or> (length k > 12 \<and> map_sum id ToLower (slice_to k 12) = Inr ''x-forwarded-'')
                then stripLoop ks (Del h k)
                else stripLoop ks h))"

definition stripHeaders :: "Header \<Rightarrow> panic + Header" where
  "stripHeaders h = stripLoop (map fst h) h"

section \<open>The descriptor codec\<close>

text \<open>
  Modelled from the spec: the constant \<^verbatim>\<open>ivLen\<close> is declared outside the file; the
  specification gives the IV 16 bytes.
\<close>

definition ivLen :: nat where
  "ivLen = 16"

text \<open>
  Modelled from the spec: the struct \<^verbatim>\<open>clientRequest\<close> is declared outside the file;
  its fields are the descriptor's \<open>real\<close>, \<open>auth\<close>, \<open>options\<close> and \<open>iv\<close> (an array of
  \<^verbatim>\<open>ivLen\<close> bytes, here a list).
\<close>

record clientRequest =
  Real :: string
  Auth :: string
  Opt :: Options
  IV :: string

text \<open>
  The \<^verbatim>\<open>Cipher\<close> is a collaborator: its operations are the fields of a record, and the
  theorems hold for every such record. \<open>GCM_Seal nonce plaintext\<close> is
  \<^verbatim>\<open>GCM.Seal(nil, nonce, plaintext, nil)\<close>, \<open>GCM_Open nonce ciphertext\<close> is
  \<^verbatim>\<open>GCM.Open(nil, nonce, ciphertext, nil)\<close>; \<open>Encrypt\<close> and \<open>Decrypt\<close> take the text and
  the IV. \<open>Jibber\<close> draws a word from the generator state \<open>'g\<close> and returns the new state.
\<close>

record 'g Cipher =
  GCM_Seal :: "string \<Rightarrow> string \<Rightarrow> string"
  GCM_Open :: "string \<Rightarrow> string \<Rightarrow> string \<times> goerror option"
  Encrypt :: "string \<Rightarrow> string \<Rightarrow> string"
  Decrypt :: "string \<Rightarrow> string \<Rightarrow> string \<times> goerror option"
  Alias :: string
  Jibber :: "'g \<Rightarrow> string \<times> 'g"

text \<open>
  The text codec \<^verbatim>\<open>msg64.Base41Encode\<close>, \<^verbatim>\<open>msg64.Base41Decode\<close> and the methods
  \<^verbatim>\<open>Marshal\<close> and \<^verbatim>\<open>Unmarshal\<close> of the descriptor are collaborators as well.
  \<open>Unmarshal r buf\<close> returns the receiver as the call leaves it, and the error.
\<close>

record Codec =
  Base41Encode :: "string \<Rightarrow> string"
  Base41Decode :: "string \<Rightarrow> string \<times> bool"
  Marshal :: "clientRequest \<Rightarrow> string"
  Unmarshal :: "clientRequest \<Rightarrow> string \<Rightarrow> clientRequest \<times> goerror option"

text \<open>\<^verbatim>\<open>new(clientRequest)\<close>: every field zero.\<close>

definition new_clientRequest :: clientRequest where
  "new_clientRequest = \<lparr>Real = '''', Auth = '''', Opt = 0, IV = replicate ivLen (CHR 0x00)\<rparr>"

definition encryptClientRequest :: "('g, 'x) Cipher_scheme \<Rightarrow> Codec \<Rightarrow> clientRequest \<Rightarrow> string" where
  "encryptClientRequest gc co r =
     (let enc = GCM_Seal gc (take 12 (IV r)) (Marshal co r);
          enc = enc @ IV r
      in Base41Encode co enc)"

text \<open>
  \<^verbatim>\<open>decryptClientRequest\<close> returns \<^verbatim>\<open>nil\<close> (\<open>None\<close>) or the descriptor. The two calls of
  the logger before \<^verbatim>\<open>return nil\<close> do not change the result.
\<close>

definition decryptClientRequest :: "('g, 'x) Cipher_scheme \<Rightarrow> Codec \<Rightarrow> string \<Rightarrow> clientRequest option" where
  "decryptClientRequest gc co url =
     (case Base41Decode co url of (buf, ok) \<Rightarrow>
        if \<not> ok \<or> length buf < ivLen then None
        else (let iv = drop (length buf - ivLen) buf;
                  buf = take (length buf - ivLen) buf
              in case GCM_Open gc (take 12 iv) buf of
                   (buf, Some err) \<Rightarrow> None
                 | (buf, None) \<Rightarrow>
                     (let r = new_clientRequest\<lparr>IV := iv\<rparr>
                      in case Unmarshal co r buf of
                           (r, Some err) \<Rightarrow> None
                         | (r, None) \<Rightarrow> Some r)))"

section \<open>\<^verbatim>\<open>copyHeaders\<close>\<close>

text \<open>The zero IV \<^verbatim>\<open>[ivLen]byte{}\<close>, and \<^verbatim>\<open>buffer.Trunc\<close> on the content of the buffer.\<close>

definition zeroIV :: string where
  "zeroIV = replicate ivLen (CHR 0x00)"

definition Trunc :: "string \<Rightarrow> char \<Rightarrow> string" where
  "Trunc b t = (if length b > 0 \<and> b ! (length b - 1) = t then take (length b - 1) b else b)"

text \<open>
  The end of the inner loop body:
  \<^verbatim>\<open>for _, vn := range strings.Split(v, "\n") { dst.Add(k, vn) }\<close>.
\<close>

definition addSplit :: "Header \<Rightarrow> string \<Rightarrow> string \<Rightarrow> Header" where
  "addSplit dst k v = foldl (\<lambda>d vn. Add d k vn) dst (Split v (CHR 0x0A))"

text \<open>
  The body of the inner loop for the value \<open>v\<close> of the key \<open>k\<close>, on the state \<open>(dst,
  setcookies)\<close>. \<^verbatim>\<open>continue READ\<close> returns the state at once; a \<^verbatim>\<open>case\<close> that runs to
  its end goes on to \<open>addSplit\<close>. The error of \<^verbatim>\<open>gc.Decrypt\<close> is dropped, as in the
  source, and the number 6 in \<^verbatim>\<open>v[:len(v)-6]\<close> is the source's.
\<close>

definition copyValue ::
  "('g, 'x) Cipher_scheme \<Rightarrow> bool \<Rightarrow> string \<Rightarrow> string \<Rightarrow> string \<Rightarrow> Header \<times> string
     \<Rightarrow> panic + Header \<times> string" where
  "copyValue gc enc iv k v st =
     (case st of (dst, setcookies) \<Rightarrow>
      if ToLower k = ''set-cookie'' then
        (if iv \<noteq> zeroIV then
           (if enc then Inr (dst, setcookies @ v @ [CHR 0x0A])
            else
              (let ei = Index v CHR ''=''; di = Index v CHR '';'';
                   di = (if di = - 1 then int (length v) else di)
               in case slice v (ei + 1) di of
                    Inl p \<Rightarrow> Inl p
                  | Inr c \<Rightarrow>
                      (let v = fst (Decrypt gc c iv)
                       in if \<not> HasSuffix v (Alias gc) then Inr (dst, setcookies)
                          else (case slice_to v (int (length v) - 6) of
                                  Inl p \<Rightarrow> Inl p
                                | Inr v \<Rightarrow> Inr (addSplit dst k v, setcookies)))))
         else Inr (addSplit dst k v, setcookies))
      else if ToLower k = ''content-encoding'' \<or> ToLower k = ''content-type'' then
        (if enc then Inr (Add dst (''X-'' @ k) v, setcookies)
         else if iv \<noteq> zeroIV then Inr (dst, setcookies)
         else Inr (addSplit dst k v, setcookies))
      else if ToLower k = ''x-content-encoding'' \<or> ToLower k = ''x-content-type'' then
        (if \<not> enc then
           (case slice_from k 2 of
              Inl p \<Rightarrow> Inl p
            | Inr k2 \<Rightarrow> Inr (Add dst k2 v, setcookies))
         else Inr (addSplit dst k v, setcookies))
      else Inr (addSplit dst k v, setcookies))"

text \<open>The inner loop over the values of one key, and the outer loop over the map.\<close>

fun copyValues ::
  "('g, 'x) Cipher_scheme \<Rightarrow> bool \<Rightarrow> string \<Rightarrow> string \<Rightarrow> string list \<Rightarrow> Header \<times> string
     \<Rightarrow> panic + Header \<times> string" where
  "copyValues gc enc iv k [] st = Inr st"
| "copyValues gc enc iv k (v # vs) st =
     (case copyValue gc enc iv k v st of
        Inl p \<Rightarrow> Inl p
      | Inr st' \<Rightarrow> copyValues gc enc iv k vs st')"

fun copyEntries ::
  "('g, 'x) Cipher_scheme \<Rightarrow> bool \<Rightarrow> string \<Rightarrow> Header \<Rightarrow> Header \<times> string
     \<Rightarrow> panic + Header \<times> string" where
  "copyEntries gc enc iv [] st = Inr st"
| "copyEntries gc enc iv ((k, vs) # src) st =
     (case copyValues gc enc iv k vs st of
        Inl p \<Rightarrow> Inl p
      | Inr st' \<Rightarrow> copyEntries gc enc iv src st')"

text \<open>
  \<^verbatim>\<open>func copyHeaders(dst, src http.Header, gc *Cipher, enc bool, iv [ivLen]byte)\<close>.
  The function changes \<open>dst\<close> in place; the model returns the new \<open>dst\<close> and the new
  state of the word generator. The first loop calls \<^verbatim>\<open>dst.Del(k)\<close> for every key of
  \<open>dst\<close>. The operands of the last \<^verbatim>\<open>dst.Add\<close> are evaluated from left to right: a
  word, the ciphertext, another word.
\<close>

definition copyHeaders ::
  "Header \<Rightarrow> Header \<Rightarrow> ('g, 'x) Cipher_scheme \<Rightarrow> bool \<Rightarrow> string \<Rightarrow> 'g \<Rightarrow> panic + Header \<times> 'g" where
  "copyHeaders dst src gc enc iv g =
     (let dst = foldl Del dst (map fst dst)
      in case copyEntries gc enc iv src (dst, []) of
           Inl p \<Rightarrow> Inl p
         | Inr (dst, setcookies) \<Rightarrow>
             if length setcookies > 0 \<and> iv \<noteq> zeroIV then
               (let setcookies = Trunc setcookies (CHR 0x0A) @ Alias gc;
                    (j1, g) = Jibber gc g;
                    e = Encrypt gc setcookies iv;
                    (j2, g) = Jibber gc g
                in Inr (Add dst ''Set-Cookie''
                          (j1 @ ''='' @ e @ ''; Domain='' @ j2 @ ''.com; HttpOnly''), g))
             else Inr (dst, g))"

section \<open>A small instance of the collaborators\<close>


definition toyCodec :: Codec where
  "toyCodec = \<lparr>
     Base41Encode = (\<lambda>b. ''41'' @ b),
     Base41Decode = (\<lambda>s. if take 2 s = ''41'' then (drop 2 s, True) else ('''', False)),
     Marshal = (\<lambda>r. (if Opt r = 1 then ''1'' else ''0'') @ Auth r @ ''|'' @ Real r),
     Unmarshal = (\<lambda>r b.
        if CHR ''|'' \<in> set b \<and> (hd b = CHR ''0'' \<or> hd b = CHR ''1'')
        then (r\<lparr>Opt := (if hd b = CHR ''1'' then 1 else 0),
                Auth := takeWhile (\<lambda>c. c \<noteq> CHR ''|'') (tl b),
                Real := tl (dropWhile (\<lambda>c. c \<noteq> CHR ''|'') b)\<rparr>, None)
        else (r, Some ''malformed''))\<rparr>"

fun toyEnc :: "string \<Rightarrow> string" where
  "toyEnc [] = []"
| "toyEnc (c # cs) =
     (if c = CHR '';'' then ''%s'' else if c = CHR ''%'' then ''%%'' else [c]) @ toyEnc cs"

fun toyDec :: "string \<Rightarrow> string" where
  "toyDec [] = []"
| "toyDec [c] = [c]"
| "toyDec (c # d # cs) =
     (if c = CHR ''%'' then (if d = CHR ''s'' then CHR '';'' else d) # toyDec cs
      else c # toyDec (d # cs))"

definition toyCipher :: "nat Cipher" where
  "toyCipher = \<lparr>
     GCM_Seal = (\<lambda>nonce pt. ''#'' @ pt),
     GCM_Open = (\<lambda>nonce ct. if ct \<noteq> [] \<and> hd ct = CHR ''#'' then (tl ct, None)
                    else ('''', Some ''cipher: message authentication failed'')),
     Encrypt = (\<lambda>s iv. toyEnc s),
     Decrypt = (\<lambda>s iv. (toyDec s, None)),
     Alias = ''marker'',
     Jibber = (\<lambda>n. (if even n then ''tok'' else ''dom'', Suc n))\<rparr>"

definition toyRequest :: clientRequest where
  "toyRequest =
     \<lparr>Real = ''http://example.com/'', Auth = ''secret'', Opt = 1, IV = ''0123456789abcdef''\<rparr>"

definition toyIV :: string where
  "toyIV = ''0123456789abcdef''"

section \<open>The values a header map holds, and what a pass adds\<close>










section \<open>Header maps and ciphers to evaluate \<^verbatim>\<open>copyHeaders\<close> on\<close>



definition plainCipher :: "nat Cipher" where
  "plainCipher = toyCipher\<lparr>Encrypt := (\<lambda>s iv. s), Decrypt := (\<lambda>s iv. (s, None))\<rparr>"

definition equalsCipher :: "nat Cipher" where
  "equalsCipher = toyCipher\<lparr>Jibber := (\<lambda>n. (''to=k'', Suc n))\<rparr>"

section \<open>Facts about the string functions\<close>










section \<open>The flag register: clearing a flag\<close>

lemma or_minus_clears: "((x :: 32 word) OR f) - f = x AND NOT f"
  by (metis (no_types, lifting) bit.conj_disj_distrib2 bit_and_iff
      disjunctive_diff or.right_neutral word_and_not word_ao_absorbs(5))

lemma or_and_not: "((x :: 32 word) OR f) AND NOT f = x AND NOT f"
  by (rule bit_eqI) (auto simp: bit_simps)

text \<open>
  C5, as amended. \<^verbatim>\<open>Set(f)\<close> followed by \<^verbatim>\<open>UnSet(f)\<close> on a register \<open>r\<close> gives \<open>r\<close> with
  the bits of \<open>f\<close> cleared and every other bit as it was; on the empty register the
  result is \<open>0\<close>.
\<close>

theorem UnSet_Set_clears:
  "UnSet (Set r [f]) [f] = r AND NOT f \<and> UnSet (Set 0 [f]) [f] = 0"
  by (simp add: Set_def UnSet_def or_minus_clears or_and_not)

text \<open>
  C5, as stated, fails: with the register \<open>2\<close> and the flag \<open>1\<close>, setting and then
  clearing the flag gives \<open>2\<close> again, not \<open>0\<close>.
\<close>

theorem UnSet_Set_zero_counterexample:
  "UnSet (Set (2 :: 32 word) [1]) [1] = 2 \<and> UnSet (Set (2 :: 32 word) [1]) [1] \<noteq> 0"
  by (simp add: Set_def UnSet_def)

section \<open>\<^verbatim>\<open>stripURI\<close>: where it panics\<close>

text \<open>
  C10. A non-empty URI that does not start with \<open>/\<close> and is shorter than 8 bytes makes
  \<^verbatim>\<open>uri[8:]\<close> panic; a URI that starts with \<open>/\<close> is returned without that first byte, and
  there is no panic.
\<close>

theorem stripURI_panics_or_strips:
  "(uri \<noteq> [] \<and> hd uri \<noteq> CHR ''/'' \<and> length uri < 8 \<longrightarrow> stripURI uri = Inl SliceBounds)
   \<and> stripURI (CHR ''/'' # rest) = Inr rest"
  by (cases uri) (auto simp: stripURI_def slice_from_def slice_def)

theorem stripURI_panics_or_strips_witness:
  "''http:/'' \<noteq> [] \<and> hd ''http:/'' \<noteq> CHR ''/'' \<and> length ''http:/'' < 8
   \<and> stripURI ''http:/'' = Inl SliceBounds
   \<and> stripURI ''/abc/d'' = Inr ''abc/d''"
  using stripURI_panics_or_strips [of "''http:/''" "''abc/d''"] by simp

section \<open>\<^verbatim>\<open>splitHostPort\<close>: splitting at the last colon\<close>





section \<open>\<^verbatim>\<open>basicAuth\<close>: when the secret is returned\<close>








section \<open>\<^verbatim>\<open>readUntil\<close>: the example, and a match after the end of the stream\<close>

text \<open>
  The example of the specification holds: on the input \<open>X: 1\r\n\r\nBODY\<close> with the
  marker \<open>\r\n\r\n\<close>, the bytes up to and with the marker are returned and \<open>BODY\<close> is
  left in the stream.
\<close>

lemma readUntil_example:
  "readUntil (stream (''X: 1'' @ CRLF @ CRLF @ ''BODY'')) (CRLF @ CRLF) =
     (Inr (''X: 1'' @ CRLF @ CRLF), stream ''BODY'')"
  by (simp add: readUntil_def stream_def CRLF_def loopBody_def Read_def Let_def)

text \<open>
  On a stream of bytes, the bytes returned are a prefix of the stream and the rest of
  the stream is left unread. The bytes returned end with the marker, unless they are the
  whole stream: then the marker may have been completed by the comparison that is made
  after the end of the stream.
\<close>

lemma readLoop_consumed:
  "readLoop eoh (stream t) (b, resp, eidx) = (Inr out, rest) \<Longrightarrow>
   \<exists>n \<le> length t. out = resp @ take n t \<and> rest = stream (drop n t)"
proof (induction t arbitrary: b resp eidx)
  case Nil
  then show ?case
    by (auto simp: stream_def Read_def loopBody_def Let_def split: if_splits)
next
  case (Cons x t)
  show ?case
  proof (cases "loopBody eoh (Some x, None) (b, resp, eidx)")
    case (Inl res)
    with Cons.prems have "res = Inr out" "rest = stream t"
      by (simp_all add: stream_def)
    with Inl have "out = resp @ [x]"
      by (auto simp: loopBody_def Let_def split: if_splits)
    with \<open>rest = stream t\<close> have "out = resp @ take 1 (x # t) \<and> rest = stream (drop 1 (x # t))"
      by simp
    then show ?thesis
      by (intro exI [of _ 1]) simp
  next
    case (Inr st')
    then have st': "st' = (x, resp @ [x], if x = eoh ! eidx then eidx + 1 else 0)"
      by (auto simp: loopBody_def Let_def split: if_splits)
    with Cons.prems Inr
    have "readLoop eoh (stream t) (x, resp @ [x], if x = eoh ! eidx then eidx + 1 else 0) = (Inr out, rest)"
      by (simp add: stream_def)
    from Cons.IH [OF this] obtain n where
      n: "n \<le> length t" "out = (resp @ [x]) @ take n t" "rest = stream (drop n t)"
      by blast
    then have "Suc n \<le> length (x # t) \<and> out = resp @ take (Suc n) (x # t)
        \<and> rest = stream (drop (Suc n) (x # t))"
      by simp
    then show ?thesis by blast
  qed
qed

lemma readUntil_consumed:
  "readUntil (stream s) eoh = (Inr out, rest) \<Longrightarrow>
   \<exists>n \<le> length s. out = take n s \<and> rest = stream (drop n s)"
  using readLoop_consumed [of eoh s "CHR 0x00" "[]" 0 out rest]
  by (simp add: readUntil_def)

lemma HasSuffix_snoc:
  assumes "HasSuffix resp (take i eoh)" and "i < length eoh"
  shows "HasSuffix (resp @ [eoh ! i]) (take (Suc i) eoh)"
proof -
  from assms(1) obtain p where p: "resp = p @ take i eoh"
    by (metis HasSuffix_def append_take_drop_id)
  have "take (Suc i) eoh = take i eoh @ [eoh ! i]"
    using assms(2) by (rule take_Suc_conv_app_nth)
  with p show ?thesis
    by (simp add: HasSuffix_def)
qed

lemma readLoop_marker_or_end:
  "readLoop eoh (stream t) (b, resp, eidx) = (Inr out, rest) \<Longrightarrow>
   HasSuffix resp (take eidx eoh) \<Longrightarrow> eidx < length eoh \<Longrightarrow>
   HasSuffix out eoh \<or> (out = resp @ t \<and> rest = [])"
proof (induction t arbitrary: b resp eidx)
  case Nil
  then show ?case
    by (auto simp: stream_def Read_def loopBody_def Let_def split: if_splits)
next
  case (Cons x t)
  show ?case
  proof (cases "loopBody eoh (Some x, None) (b, resp, eidx)")
    case (Inl res)
    with Cons.prems(1) have "res = Inr out"
      by (simp add: stream_def)
    with Inl Cons.prems(3) have f: "out = resp @ [x]" "x = eoh ! eidx" "Suc eidx = length eoh"
      by (auto simp: loopBody_def Let_def split: if_splits)
    from HasSuffix_snoc [OF Cons.prems(2,3)] f have "HasSuffix out eoh"
      by simp
    then show ?thesis ..
  next
    case (Inr st')
    then have st': "st' = (x, resp @ [x], if x = eoh ! eidx then eidx + 1 else 0)"
      and nf: "\<not> (x = eoh ! eidx \<and> eidx + 1 = length eoh)"
      by (auto simp: loopBody_def Let_def split: if_splits)
    let ?i = "if x = eoh ! eidx then eidx + 1 else 0"
    from Cons.prems(1) Inr st'
    have run: "readLoop eoh (stream t) (x, resp @ [x], ?i) = (Inr out, rest)"
      by (simp add: stream_def)
    have suf: "HasSuffix (resp @ [x]) (take ?i eoh)"
      using HasSuffix_snoc [OF Cons.prems(2,3)] by (auto simp: HasSuffix_def)
    have lt: "?i < length eoh"
      using Cons.prems(3) nf by auto
    from Cons.IH [OF run suf lt] show ?thesis by auto
  qed
qed

lemma readUntil_marker_or_end:
  assumes "readUntil (stream s) eoh = (Inr out, rest)"
  shows "HasSuffix out eoh \<or> (out = s \<and> rest = [])"
proof (cases "eoh = []")
  case True
  have "fst (readUntil (stream s) []) = Inl (Panic IndexRange)"
    by (cases s) (simp_all add: readUntil_def stream_def loopBody_def Read_def)
  with assms True show ?thesis by simp
next
  case False
  have "HasSuffix [] (take 0 eoh)" by (simp add: HasSuffix_def)
  with readLoop_marker_or_end [of eoh s "CHR 0x00" "[]" 0 out rest] assms False
  show ?thesis by (simp add: readUntil_def)
qed

text \<open>
  C8 fails on the code. On the stream \<open>ab\<close> and the marker \<open>abb\<close> the third call of
  \<^verbatim>\<open>Read\<close> returns \<^verbatim>\<open>(0, io.EOF)\<close>; \<^verbatim>\<open>buf[0]\<close> still holds the \<open>b\<close> of the call before
  and is compared with \<^verbatim>\<open>eoh[2]\<close> once more, so the marker counts as found: the result
  is \<open>ab\<close> without an error, although the stream ended before the marker was seen and
  the bytes returned do not hold the marker. In the same way the marker of one zero
  byte is found in the empty stream.
\<close>

theorem readUntil_stale_byte_found:
  "readUntil (stream ''ab'') ''abb'' = (Inr ''ab'', [])
   \<and> readUntil (stream '''') [CHR 0x00] = (Inr '''', [])"
  by (simp add: readUntil_def stream_def loopBody_def Read_def Let_def)

section \<open>The header-stripping pass: short header names\<close>

lemma length_canonCase: "length (canonCase u s) = length s"
  by (induction s arbitrary: u) (auto simp: Let_def)

lemma length_Canonical: "length (CanonicalMIMEHeaderKey s) = length s"
  by (simp add: CanonicalMIMEHeaderKey_def length_canonCase)

lemma keys_Del: "set (map fst (Del h k)) = set (map fst h) - {CanonicalMIMEHeaderKey k}"
  by (auto simp: Del_def)

lemma slice_to_short: "length k < 3 \<Longrightarrow> slice_to k 3 = Inl SliceBounds"
  by (simp add: slice_to_def slice_def)

lemma slice_to_ok: "n \<le> length k \<Longrightarrow> slice_to k (int n) = Inr (take n k)"
  by (simp add: slice_to_def slice_def)

lemma stripLoop_panics:
  "k \<in> set ks \<Longrightarrow> k \<in> set (map fst h) \<Longrightarrow> length k < 3 \<Longrightarrow> stripLoop ks h = Inl SliceBounds"
proof (induction ks arbitrary: h)
  case Nil
  then show ?case by simp
next
  case (Cons x xs)
  show ?case
  proof (cases "x \<in> set (map fst h)")
    case False
    with Cons.prems have "k \<in> set xs" by auto
    with Cons False show ?thesis by simp
  next
    case True
    show ?thesis
    proof (cases "length x < 3")
      case short: True
      with True show ?thesis by (simp add: slice_to_short)
    next
      case False
      then have x3: "slice_to x 3 = Inr (take 3 x)"
        using slice_to_ok [of 3 x] by simp
      from False Cons.prems have kx: "k \<noteq> x" by auto
      with Cons.prems have kxs: "k \<in> set xs" by simp
      have "k \<noteq> CanonicalMIMEHeaderKey x"
        using False Cons.prems(3) length_Canonical [of x] by auto
      with Cons.prems have "k \<in> set (map fst (Del h x))"
        by (simp only: keys_Del) simp
      with Cons.IH [OF kxs _ Cons.prems(3)] Cons.IH [OF kxs Cons.prems(2) Cons.prems(3)]
      show ?thesis using True x3 by simp
    qed
  qed
qed

lemma stripLoop_total:
  "list_all (\<lambda>k. 3 \<le> length k) ks \<Longrightarrow> \<exists>h'. stripLoop ks h = Inr h'"
proof (induction ks arbitrary: h)
  case Nil
  then show ?case by simp
next
  case (Cons x xs)
  then have "slice_to x 3 = Inr (take 3 x)"
    using slice_to_ok [of 3 x] by simp
  with Cons show ?case by simp
qed

text \<open>
  C6. The pass is not total: when the header map holds a name shorter than 3 bytes,
  in whatever order the map is visited, \<^verbatim>\<open>k[:3]\<close> panics; and the pass returns exactly
  when every name of the map has at least 3 bytes.
\<close>

theorem stripHeaders_short_name_panics:
  "(k \<in> set (map fst h) \<and> length k < 3 \<longrightarrow> stripHeaders h = Inl SliceBounds)
   \<and> ((\<exists>h'. stripHeaders h = Inr h') \<longleftrightarrow> list_all (\<lambda>k. 3 \<le> length k) (map fst h))"
proof -
  have panics: "stripHeaders h = Inl SliceBounds" if "k \<in> set (map fst h)" "length k < 3" for k
    using that stripLoop_panics [of k "map fst h" h] by (simp add: stripHeaders_def)
  have total: "\<exists>h'. stripHeaders h = Inr h'" if "list_all (\<lambda>k. 3 \<le> length k) (map fst h)"
    using that stripLoop_total [of "map fst h" h] by (simp add: stripHeaders_def)
  have "list_all (\<lambda>k. 3 \<le> length k) (map fst h)" if "stripHeaders h = Inr h'" for h'
  proof (rule ccontr)
    assume "\<not> list_all (\<lambda>k. 3 \<le> length k) (map fst h)"
    then obtain k where "k \<in> set (map fst h)" "length k < 3"
      by (auto simp: list_all_iff not_le)
    with panics that show False by simp
  qed
  with panics total show ?thesis by blast
qed

theorem stripHeaders_short_name_panics_witness:
  "''Te'' \<in> set (map fst [(''Host'', [''example.com'']), (''Te'', [''trailers''])])
   \<and> length ''Te'' < 3
   \<and> stripHeaders [(''Host'', [''example.com'']), (''Te'', [''trailers''])] = Inl SliceBounds
   \<and> list_all (\<lambda>k. 3 \<le> length k) (map fst [(''Cf-Ray'', [''1'']), (''Host'', [''example.com''])])
   \<and> (\<exists>h'. stripHeaders [(''Cf-Ray'', [''1'']), (''Host'', [''example.com''])] = Inr h')"
  using stripHeaders_short_name_panics
      [of "''Te''" "[(''Host'', [''example.com'']), (''Te'', [''trailers''])]"]
    stripHeaders_short_name_panics
      [of "''Te''" "[(''Cf-Ray'', [''1'']), (''Host'', [''example.com''])]"]
  by simp

text \<open>The pass on a request that came through a CDN: the two kinds of names are removed.\<close>

lemma stripHeaders_example:
  "stripHeaders [(''Cf-Ray'', [''1'']), (''Host'', [''a'']), (''X-Forwarded-For'', [''1.2.3.4''])]
     = Inr [(''Host'', [''a''])]"
  by (simp add: stripHeaders_def slice_to_def slice_def Del_def CanonicalMIMEHeaderKey_def
      validHeaderFieldByte_def upperByte_def lowerByte_def ToLower_def Let_def)

section \<open>The descriptor codec: round trip and invalid text\<close>

text \<open>
  C1. Let the text codec decode what it encodes, let the authenticated cipher open what
  it seals under the same nonce, and let \<^verbatim>\<open>Unmarshal\<close>, called on a fresh descriptor
  that carries the IV of \<open>D\<close>, restore \<open>D\<close> from \<^verbatim>\<open>Marshal\<close> of \<open>D\<close>. Then for a
  descriptor \<open>D\<close> with an IV of 16 bytes, opening the sealed text gives a descriptor,
  and it is \<open>D\<close>, IV included.
\<close>

theorem seal_open_roundtrip:
  assumes codec: "\<forall>b. Base41Decode co (Base41Encode co b) = (b, True)"
    and gcm: "\<forall>nonce pt. GCM_Open gc nonce (GCM_Seal gc nonce pt) = (pt, None)"
    and marshal: "Unmarshal co (new_clientRequest\<lparr>IV := IV D\<rparr>) (Marshal co D) = (D, None)"
    and iv: "length (IV D) = ivLen"
  shows "decryptClientRequest gc co (encryptClientRequest gc co D) = Some D"
  using assms by (simp add: decryptClientRequest_def encryptClientRequest_def Let_def)

theorem seal_open_roundtrip_witness:
  "(\<forall>b. Base41Decode toyCodec (Base41Encode toyCodec b) = (b, True))
   \<and> (\<forall>nonce pt. GCM_Open toyCipher nonce (GCM_Seal toyCipher nonce pt) = (pt, None))
   \<and> Unmarshal toyCodec (new_clientRequest\<lparr>IV := IV toyRequest\<rparr>) (Marshal toyCodec toyRequest)
       = (toyRequest, None)
   \<and> length (IV toyRequest) = ivLen
   \<and> decryptClientRequest toyCipher toyCodec (encryptClientRequest toyCipher toyCodec toyRequest)
       = Some toyRequest"
proof -
  have h1: "\<forall>b. Base41Decode toyCodec (Base41Encode toyCodec b) = (b, True)"
    by (simp add: toyCodec_def)
  have h2: "\<forall>nonce pt. GCM_Open toyCipher nonce (GCM_Seal toyCipher nonce pt) = (pt, None)"
    by (simp add: toyCipher_def)
  have h3: "Unmarshal toyCodec (new_clientRequest\<lparr>IV := IV toyRequest\<rparr>) (Marshal toyCodec toyRequest)
       = (toyRequest, None)"
    by (simp add: toyCodec_def toyRequest_def new_clientRequest_def)
  have h4: "length (IV toyRequest) = ivLen"
    by (simp add: toyRequest_def ivLen_def)
  from h1 h2 h3 h4 seal_open_roundtrip [OF h1 h2 h3 h4] show ?thesis by simp
qed

text \<open>
  C3. \<^verbatim>\<open>decryptClientRequest\<close> returns \<^verbatim>\<open>nil\<close> when the text does not decode, when the
  decoded bytes are fewer than the 16 of the IV, when the authenticated cipher does not
  open the ciphertext, and when the plaintext does not unmarshal: the same result in
  the four cases. A descriptor is returned only when all four steps have succeeded, and
  then it is the one that \<^verbatim>\<open>Unmarshal\<close> has filled.
\<close>

theorem open_invalid_is_nil:
  "(\<not> snd (Base41Decode co url) \<longrightarrow> decryptClientRequest gc co url = None)
   \<and> (length (fst (Base41Decode co url)) < ivLen \<longrightarrow> decryptClientRequest gc co url = None)
   \<and> (Base41Decode co url = (buf, True) \<and> ivLen \<le> length buf
        \<and> snd (GCM_Open gc (take 12 (drop (length buf - ivLen) buf)) (take (length buf - ivLen) buf)) \<noteq> None
      \<longrightarrow> decryptClientRequest gc co url = None)
   \<and> (Base41Decode co url = (buf, True) \<and> ivLen \<le> length buf
        \<and> GCM_Open gc (take 12 (drop (length buf - ivLen) buf)) (take (length buf - ivLen) buf) = (pt, None)
        \<and> snd (Unmarshal co (new_clientRequest\<lparr>IV := drop (length buf - ivLen) buf\<rparr>) pt) \<noteq> None
      \<longrightarrow> decryptClientRequest gc co url = None)
   \<and> (decryptClientRequest gc co url = Some r \<longrightarrow>
        (\<exists>buf pt. Base41Decode co url = (buf, True) \<and> ivLen \<le> length buf
           \<and> GCM_Open gc (take 12 (drop (length buf - ivLen) buf)) (take (length buf - ivLen) buf) = (pt, None)
           \<and> Unmarshal co (new_clientRequest\<lparr>IV := drop (length buf - ivLen) buf\<rparr>) pt = (r, None)))"
  by (auto simp: decryptClientRequest_def Let_def split: prod.splits option.splits if_splits)

theorem open_invalid_is_nil_witness:
  "(\<not> snd (Base41Decode toyCodec ''hello'') \<and> decryptClientRequest toyCipher toyCodec ''hello'' = None)
   \<and> (length (fst (Base41Decode toyCodec ''41#1s|r0123456'')) < ivLen
      \<and> decryptClientRequest toyCipher toyCodec ''41#1s|r0123456'' = None)
   \<and> (Base41Decode toyCodec ''411s|r0123456789abcdef'' = (''1s|r0123456789abcdef'', True)
      \<and> ivLen \<le> length ''1s|r0123456789abcdef''
      \<and> snd (GCM_Open toyCipher ''0123456789ab'' ''1s|r'') \<noteq> None
      \<and> decryptClientRequest toyCipher toyCodec ''411s|r0123456789abcdef'' = None)
   \<and> (Base41Decode toyCodec ''41#1sr0123456789abcdef'' = (''#1sr0123456789abcdef'', True)
      \<and> GCM_Open toyCipher ''0123456789ab'' ''#1sr'' = (''1sr'', None)
      \<and> snd (Unmarshal toyCodec (new_clientRequest\<lparr>IV := ''0123456789abcdef''\<rparr>) ''1sr'') \<noteq> None
      \<and> decryptClientRequest toyCipher toyCodec ''41#1sr0123456789abcdef'' = None)
   \<and> decryptClientRequest toyCipher toyCodec ''41#1s|r0123456789abcdef''
       = Some \<lparr>Real = ''r'', Auth = ''s'', Opt = 1, IV = ''0123456789abcdef''\<rparr>"
proof -
  have d: "decryptClientRequest toyCipher toyCodec ''41#1s|r0123456789abcdef''
       = Some \<lparr>Real = ''r'', Auth = ''s'', Opt = 1, IV = ''0123456789abcdef''\<rparr>"
    by (simp add: decryptClientRequest_def toyCodec_def toyCipher_def ivLen_def
        new_clientRequest_def Let_def)
  show ?thesis
    using d
      open_invalid_is_nil [where co = toyCodec and gc = toyCipher and url = "''hello''"]
      open_invalid_is_nil [where co = toyCodec and gc = toyCipher and url = "''41#1s|r0123456''"]
      open_invalid_is_nil [where co = toyCodec and gc = toyCipher
        and url = "''411s|r0123456789abcdef''" and buf = "''1s|r0123456789abcdef''"]
      open_invalid_is_nil [where co = toyCodec and gc = toyCipher
        and url = "''41#1sr0123456789abcdef''" and buf = "''#1sr0123456789abcdef''"
        and pt = "''1sr''"]
    by (simp add: toyCodec_def toyCipher_def ivLen_def)
qed

section \<open>\<^verbatim>\<open>copyHeaders\<close>: the alias marker of a decrypted cookie\<close>

text \<open>
  What the decrypting pass does with one \<^verbatim>\<open>Set-Cookie\<close> value under a nonzero IV, when
  the slice between the first \<open>=\<close> and the first \<open>;\<close> is in range: the slice is
  decrypted; a text that does not end with the alias marker is discarded; from a text
  that does, the last 6 bytes are removed, and there is a panic when it has fewer.
\<close>

lemma slice_to_minus_six:
  "slice_to d (int (length d) - 6) =
     (if 6 \<le> length d then Inr (take (length d - 6) d) else Inl SliceBounds)"
proof -
  have "nat (int (length d) - 6) = length d - 6" by simp
  then show ?thesis
    by (auto simp: slice_to_def slice_def)
qed

lemma copyValue_decrypts_cookie:
  assumes "ToLower k = ''set-cookie''" and "iv \<noteq> zeroIV"
    and "slice v (Index v CHR ''='' + 1)
           (if Index v CHR '';'' = - 1 then int (length v) else Index v CHR '';'') = Inr c"
    and "fst (Decrypt gc c iv) = d"
  shows "(\<not> HasSuffix d (Alias gc) \<longrightarrow> copyValue gc False iv k v (dst, sc) = Inr (dst, sc))
    \<and> (HasSuffix d (Alias gc) \<and> 6 \<le> length d \<longrightarrow>
         copyValue gc False iv k v (dst, sc) = Inr (addSplit dst k (take (length d - 6) d), sc))
    \<and> (HasSuffix d (Alias gc) \<and> length d < 6 \<longrightarrow>
         copyValue gc False iv k v (dst, sc) = Inl SliceBounds)"
  using assms by (simp add: copyValue_def Let_def slice_to_minus_six)

text \<open>
  C4 fails on the code when the alias marker is not 6 bytes long: the source checks the
  suffix against the marker of the \<^verbatim>\<open>Cipher\<close> and then removes 6 bytes. With the
  marker \<open>markers\<close> of 7 bytes, the cookie \<open>a=1\<close> is folded and encrypted to one
  \<^verbatim>\<open>Set-Cookie\<close> value; decrypting that value gives \<open>a=1markers\<close>, which ends with the
  marker, and the value added to \<open>dst\<close> is \<open>a=1m\<close>, not \<open>a=1\<close>.
\<close>

theorem copyHeaders_strips_six_bytes:
  "copyHeaders [] [(''Set-Cookie'', [''a=1''])] (toyCipher\<lparr>Alias := ''markers''\<rparr>) True toyIV (0::nat)
     = Inr ([(''Set-Cookie'', [''tok=a=1markers; Domain=dom.com; HttpOnly''])], 2)
   \<and> copyHeaders [] [(''Set-Cookie'', [''tok=a=1markers; Domain=dom.com; HttpOnly''])]
        (toyCipher\<lparr>Alias := ''markers''\<rparr>) False toyIV (2::nat)
     = Inr ([(''Set-Cookie'', [''a=1m''])], 2)"
  by code_simp

section \<open>Canonical header names\<close>






















section \<open>Adding to a header map\<close>













section \<open>\<^verbatim>\<open>copyHeaders\<close>: the encrypting pass as a list of additions\<close>













section \<open>\<^verbatim>\<open>copyHeaders\<close>: clearing the destination\<close>





section \<open>\<^verbatim>\<open>copyHeaders\<close>: joining and splitting the cookies\<close>







section \<open>\<^verbatim>\<open>copyHeaders\<close>: decrypting the combined cookie\<close>




section \<open>\<^verbatim>\<open>copyHeaders\<close>: the decrypting pass as a list of additions\<close>






section \<open>\<^verbatim>\<open>copyHeaders\<close>: what the decrypting pass adds under the three names\<close>











section \<open>\<^verbatim>\<open>copyHeaders\<close>: encrypting and then decrypting\<close>


section \<open>The escaping cipher, and the round trip on an example\<close>

lemma toyDec_toyEnc: "toyDec (toyEnc s) = s"
proof (induction s)
  case Nil
  show ?case by simp
next
  case (Cons c cs)
  show ?case
  proof (cases "c = CHR '';'' \<or> c = CHR ''%''")
    case True
    with Cons show ?thesis by auto
  next
    case False
    with Cons show ?thesis by (cases "toyEnc cs") auto
  qed
qed



lemma plainCipher_inverse: "Decrypt plainCipher (Encrypt plainCipher s iv) iv = (s, None)"
  by (simp add: plainCipher_def)



lemma equalsCipher_inverse: "Decrypt equalsCipher (Encrypt equalsCipher s iv) iv = (s, None)"
  by (simp add: equalsCipher_def toyCipher_def toyDec_toyEnc)


end
